theory Spec2Isabelle
  imports
    Complex_Main
    "HOL-Library.Sublist"
    "HOL-Library.Char_ord"
    "HOL-Library.List_Lexorder"
    "HOL-Library.Monad_Syntax"
begin

section \<open>Rate Mate: consumption against capacity\<close>

text \<open>
  A shallow embedding of the aggregation and grouping code of \<^verbatim>\<open>rate_mate.py\<close>:
  \<^verbatim>\<open>compute_totals\<close>, \<^verbatim>\<open>group_prefix\<close>, \<^verbatim>\<open>build_group_summary\<close>,
  \<^verbatim>\<open>fmt_parenthesis\<close> and the loop that fills \<^verbatim>\<open>comp_rows\<close>.

  Modelling decisions, all of them visible in the definitions below.
  \<^item> Python strings are \<open>string\<close>; \<^verbatim>\<open>startswith\<close>, \<^verbatim>\<open>in\<close>, \<^verbatim>\<open>split\<close>,
    \<^verbatim>\<open>replace\<close> and \<^verbatim>\<open>join\<close> are written out as list functions.
  \<^item> Numeric cells of the two tables are exact numbers (\<open>real\<close>): pandas holds them as
    \<^verbatim>\<open>int64\<close> or \<^verbatim>\<open>float64\<close>, and rounding, overflow, infinities and NaN cells
    inside the tables are outside the model. Unit counts are Python integers (\<open>int\<close>).
  \<^item> A pandas \<^verbatim>\<open>Series\<close> indexed by column names is an association list; a lookup of
    a label that is not in the index raises \<^verbatim>\<open>KeyError\<close>, which is the value \<open>None\<close>
    of every function below that can raise. The selected column lists are duplicate-free
    (they come from a multiselect over the unique column names of a table).
  \<^item> A row dictionary of \<^verbatim>\<open>build_group_summary\<close> is a record whose optional keys are
    \<open>option\<close> fields: \<open>None\<close> is the absent key.
\<close>

subsection \<open>String primitives\<close>

definition RATE_SUFFIX :: string where
  "RATE_SUFFIX = ''_rate''"

definition CAP_SUFFIX :: string where
  "CAP_SUFFIX = ''_cap''"

text \<open>\<^verbatim>\<open>s.startswith(p)\<close>, \<^verbatim>\<open>s.endswith(p)\<close> and \<^verbatim>\<open>sub in s\<close>.\<close>

definition startswith :: "string \<Rightarrow> string \<Rightarrow> bool" where
  "startswith s p = prefix p s"

definition endswith :: "string \<Rightarrow> string \<Rightarrow> bool" where
  "endswith s p = suffix p s"

definition contains :: "string \<Rightarrow> string \<Rightarrow> bool" where
  "contains sub s = sublist sub s"

text \<open>
  \<^verbatim>\<open>s.split(sep)\<close> for a one-character separator: the result is never empty, and two
  adjacent separators enclose an empty token.
\<close>

fun split :: "char \<Rightarrow> string \<Rightarrow> string list" where
  "split sep [] = [[]]"
| "split sep (c # cs) =
     (if c = sep then [] # split sep cs
      else (case split sep cs of
              [] \<Rightarrow> [[c]]
            | t # ts \<Rightarrow> (c # t) # ts))"

text \<open>
  \<^verbatim>\<open>s.replace(old, new)\<close>: a scan from the left; where \<^verbatim>\<open>old\<close> starts, it is replaced and
  the scan resumes after it, otherwise one character is kept. For the empty pattern
  Python puts \<^verbatim>\<open>new\<close> before every character and at the end.
\<close>

function replace :: "string \<Rightarrow> string \<Rightarrow> string \<Rightarrow> string" where
  "replace old new s =
     (if old = [] then new @ concat (map (\<lambda>c. c # new) s)
      else if s = [] then []
      else if prefix old s then new @ replace old new (drop (length old) s)
      else hd s # replace old new (tl s))"
  by pat_completeness auto
termination
  by (relation "measure (\<lambda>(old, new, s). length s)") auto

declare replace.simps [simp del]

text \<open>\<^verbatim>\<open>sep.join(xs)\<close>.\<close>

fun join :: "string \<Rightarrow> string list \<Rightarrow> string" where
  "join sep [] = []"
| "join sep [x] = x"
| "join sep (x # y # ys) = x @ sep @ join sep (y # ys)"

subsection \<open>The group classifier\<close>

text \<open>
  \<^verbatim>\<open>
  def group_prefix(col):
      if col.startswith("CL_"):
          parts = col.split("_")
          return f"{parts[0]}_{parts[1]}"
      if col.startswith("Recovery_"):
          return "Recovery"
      return col.split("_")[0]
  \<close>
  Both indexings are in range: \<^verbatim>\<open>split\<close> never returns an empty list, and a name that
  starts with \<^verbatim>\<open>CL_\<close> contains a separator, so it has at least two tokens
  (lemmas \<open>split_nonempty\<close> and \<open>split_CL_two_tokens\<close>).
\<close>

definition group_prefix :: "string \<Rightarrow> string" where
  "group_prefix col =
     (if startswith col ''CL_'' then
        (let parts = split CHR ''_'' col in parts ! 0 @ ''_'' @ parts ! 1)
      else if startswith col ''Recovery_'' then ''Recovery''
      else split CHR ''_'' col ! 0)"

subsection \<open>The number formatter\<close>

text \<open>
  \<^verbatim>\<open>
  def fmt_parenthesis(x):
      if pd.isna(x):
          return "-"
      i = int(x)
      return f"({abs(i):,})" if i < 0 else f"{i:,}"
  \<close>
  The argument is a cell of a frame: a finite number, or NaN (which is also what a
  missing key of a row dictionary becomes in the frame).
\<close>

datatype cell = NaN | Num real

text \<open>\<^verbatim>\<open>int(x)\<close> on a float truncates toward zero.\<close>

definition py_int :: "real \<Rightarrow> int" where
  "py_int x = (if x < 0 then - \<lfloor>- x\<rfloor> else \<lfloor>x\<rfloor>)"

text \<open>\<^verbatim>\<open>str(n)\<close> for a natural number: its decimal digits.\<close>

definition digit_char :: "nat \<Rightarrow> char" where
  "digit_char d = ''0123456789'' ! d"

fun decimal :: "nat \<Rightarrow> string" where
  "decimal n = (if n < 10 then [digit_char n] else decimal (n div 10) @ [digit_char (n mod 10)])"

declare decimal.simps [simp del]

text \<open>
  The format \<^verbatim>\<open>{:,}\<close>: the decimal digits with a comma before every block of three
  counted from the right. \<open>group3\<close> works on the reversed digit string.
\<close>

fun group3 :: "string \<Rightarrow> string" where
  "group3 (a # b # c # d # ds) = a # b # c # CHR '','' # group3 (d # ds)"
| "group3 ds = ds"

definition fmt_commas :: "nat \<Rightarrow> string" where
  "fmt_commas n = rev (group3 (rev (decimal n)))"

definition fmt_parenthesis :: "cell \<Rightarrow> string" where
  "fmt_parenthesis x =
     (case x of
        NaN \<Rightarrow> ''-''
      | Num v \<Rightarrow>
          (let i = py_int v
           in if i < 0 then ''('' @ fmt_commas (nat \<bar>i\<bar>) @ '')'' else fmt_commas (nat i)))"

subsection \<open>Tables, unit counts and series\<close>

text \<open>
  A row of the capacity table has a unit type and one number per numeric column; a row of
  the consumption table has an action as well. A frame is its list of numeric column
  names and its rows: \<open>vals r c\<close> is meaningful for the columns \<open>c\<close> of the frame only,
  and selecting a column the frame does not have raises \<^verbatim>\<open>KeyError\<close>.
\<close>

record row =
  unit_type :: string
  vals :: "string \<Rightarrow> real"

record cons_row = row +
  action :: string

record 'r frame =
  columns :: "string list"
  rows :: "'r list"

type_synonym series = "(string \<times> real) list"

text \<open>\<^verbatim>\<open>s[keys].sum()\<close> and \<^verbatim>\<open>sum(s[c] for c in keys)\<close>: every label has to be in the index.\<close>

definition series_sum :: "series \<Rightarrow> string list \<Rightarrow> real option" where
  "series_sum s keys = map_option sum_list (those (map (map_of s) keys))"

text \<open>\<^verbatim>\<open>df["unit_type"].map(unit_counts).fillna(0).astype(int)\<close>, for one row.\<close>

definition resolve_count :: "(string \<rightharpoonup> int) \<Rightarrow> string \<Rightarrow> int" where
  "resolve_count unit_counts u = (case unit_counts u of None \<Rightarrow> 0 | Some n \<Rightarrow> n)"

text \<open>The new \<^verbatim>\<open>count\<close> column is the second component of a counted row.\<close>

definition with_count ::
  "(string \<rightharpoonup> int) \<Rightarrow> ('a row_scheme) list \<Rightarrow> ('a row_scheme \<times> int) list" where
  "with_count unit_counts rs = map (\<lambda>r. (r, resolve_count unit_counts (unit_type r))) rs"

text \<open>\<^verbatim>\<open>detail[sel].multiply(detail["count"], axis=0)\<close>, for one row.\<close>

definition scale_row :: "'a row_scheme \<times> int \<Rightarrow> 'a row_scheme \<times> int" where
  "scale_row = (\<lambda>(r, n). (r\<lparr>vals := \<lambda>c. vals r c * of_int n\<rparr>, n))"

text \<open>\<^verbatim>\<open>detail[sel].sum()\<close>: the series of the column sums, indexed by \<^verbatim>\<open>sel\<close>.\<close>

definition column_sums :: "string list \<Rightarrow> ('a row_scheme \<times> int) list \<Rightarrow> series" where
  "column_sums sel rs = map (\<lambda>c. (c, sum_list (map (\<lambda>(r, n). vals r c) rs))) sel"

subsection \<open>Totals\<close>

text \<open>
  \<^verbatim>\<open>
  def compute_totals(cons_df, cap_df, action, unit_counts, sel_rates, sel_caps):
      req = cons_df[cons_df["action"] == action].copy()
      req["count"] = req["unit_type"].map(unit_counts).fillna(0).astype(int)
      req_detail = req[["unit_type","action","count"] + sel_rates].copy()
      req_detail.loc[:, sel_rates] = req_detail[sel_rates].multiply(req_detail["count"], axis=0)
      total_req = req_detail[sel_rates].sum()
      cap = cap_df.copy()
      cap["count"] = cap["unit_type"].map(unit_counts).fillna(0).astype(int)
      cap_detail = cap[["unit_type","count"] + sel_caps].copy()
      cap_detail.loc[:, sel_caps] = cap_detail[sel_caps].multiply(cap_detail["count"], axis=0)
      total_cap = cap_detail[sel_caps].sum()
      return req_detail, cap_detail, total_req, total_cap
  \<close>
\<close>

definition compute_totals ::
  "cons_row frame \<Rightarrow> row frame \<Rightarrow> string \<Rightarrow> (string \<rightharpoonup> int) \<Rightarrow> string list \<Rightarrow> string list
   \<Rightarrow> ((cons_row \<times> int) frame \<times> (row \<times> int) frame \<times> series \<times> series) option" where
  "compute_totals cons_df cap_df act unit_counts sel_rates sel_caps =
     (if \<not> set sel_rates \<subseteq> set (columns cons_df) then None
      else if \<not> set sel_caps \<subseteq> set (columns cap_df) then None
      else
        (let req = with_count unit_counts (filter (\<lambda>r. action r = act) (rows cons_df));
             req_detail = map scale_row req;
             total_req = column_sums sel_rates req_detail;
             cap = with_count unit_counts (rows cap_df);
             cap_detail = map scale_row cap;
             total_cap = column_sums sel_caps cap_detail
         in Some (\<lparr>columns = sel_rates, rows = req_detail\<rparr>,
                  \<lparr>columns = sel_caps, rows = cap_detail\<rparr>,
                  total_req, total_cap)))"

subsection \<open>The group summary\<close>

text \<open>The row dictionary; the last four keys are set only for some groups.\<close>

record summary_row =
  Group :: string
  Requirement :: real
  Capacity :: real
  Surplus :: real
  Deficit_Subtypes :: string
  Bulk_Cap :: "real option"
  Bulk_Surplus :: "real option"
  Wheeled_Cap :: "real option"
  Wheeled_Surplus :: "real option"

text \<open>\<^verbatim>\<open>base = rate.replace(RATE_SUFFIX, "")\<close>, in the summary and in the detail table.\<close>

definition base :: "string \<Rightarrow> string" where
  "base rate = replace RATE_SUFFIX [] rate"

text \<open>\<^verbatim>\<open>cap_matches = [c for c in sel_caps if c.startswith(base)]\<close>\<close>

definition cap_matches :: "string list \<Rightarrow> string \<Rightarrow> string list" where
  "cap_matches sel_caps b = filter (\<lambda>c. startswith c b) sel_caps"

text \<open>
  \<^verbatim>\<open>
  for rate in grp_rates:
      base = rate.replace(RATE_SUFFIX,"")
      cap_matches = [c for c in sel_caps if c.startswith(base)]
      if total_req[rate] > sum(total_cap[c] for c in cap_matches):
          deficit.append(base)
  \<close>
\<close>

fun deficit_loop :: "series \<Rightarrow> series \<Rightarrow> string list \<Rightarrow> string list \<Rightarrow> string list \<Rightarrow> string list option" where
  "deficit_loop total_req total_cap sel_caps [] deficit = Some deficit"
| "deficit_loop total_req total_cap sel_caps (rate # rates) deficit =
     do {
       r \<leftarrow> map_of total_req rate;
       s \<leftarrow> series_sum total_cap (cap_matches sel_caps (base rate));
       deficit_loop total_req total_cap sel_caps rates
         (if r > s then deficit @ [base rate] else deficit)
     }"

text \<open>The list \<^verbatim>\<open>deficit\<close> of one group, given the group's rate columns and surplus.\<close>

definition deficit_subtypes ::
  "series \<Rightarrow> series \<Rightarrow> string list \<Rightarrow> string list \<Rightarrow> real \<Rightarrow> string list option" where
  "deficit_subtypes total_req total_cap sel_caps grp_rates surplus =
     (if surplus < 0 then deficit_loop total_req total_cap sel_caps grp_rates []
      else Some [])"

text \<open>\<^verbatim>\<open>", ".join(deficit) if deficit else "-"\<close>\<close>

definition show_deficit :: "string list \<Rightarrow> string" where
  "show_deficit deficit = (if deficit \<noteq> [] then join '', '' deficit else ''-'')"

text \<open>The body of the loop over the groups: the row of one group.\<close>

definition group_row ::
  "series \<Rightarrow> series \<Rightarrow> string list \<Rightarrow> string list \<Rightarrow> string \<Rightarrow> summary_row option" where
  "group_row total_req total_cap sel_rates sel_caps grp =
     (let grp_rates = filter (\<lambda>c. group_prefix c = grp) sel_rates;
          grp_caps = filter (\<lambda>c. group_prefix c = grp) sel_caps
      in do {
        req_sum \<leftarrow> (if grp_rates \<noteq> [] then series_sum total_req grp_rates else Some 0);
        cap_sum \<leftarrow> (if grp_caps \<noteq> [] then series_sum total_cap grp_caps else Some 0);
        let surplus = cap_sum - req_sum;
        let bulk_keys = filter (contains ''_bulk_cap'') grp_caps;
        let wheel_keys = filter (contains ''_wheeled_cap'') grp_caps;
        bulk_sum \<leftarrow> (if bulk_keys \<noteq> [] then map_option Some (series_sum total_cap bulk_keys)
                     else Some None);
        wheel_sum \<leftarrow> (if wheel_keys \<noteq> [] then map_option Some (series_sum total_cap wheel_keys)
                      else Some None);
        let bulk_surp = map_option (\<lambda>b. b - req_sum) bulk_sum;
        let wheel_surp = map_option (\<lambda>w. w - req_sum) wheel_sum;
        deficit \<leftarrow> deficit_subtypes total_req total_cap sel_caps grp_rates surplus;
        Some \<lparr>Group = grp, Requirement = req_sum, Capacity = cap_sum, Surplus = surplus,
              Deficit_Subtypes = show_deficit deficit,
              Bulk_Cap = bulk_sum, Bulk_Surplus = bulk_surp,
              Wheeled_Cap = wheel_sum, Wheeled_Surplus = wheel_surp\<rparr>
      })"

fun summary_rows ::
  "series \<Rightarrow> series \<Rightarrow> string list \<Rightarrow> string list \<Rightarrow> string list \<Rightarrow> summary_row list option" where
  "summary_rows total_req total_cap sel_rates sel_caps [] = Some []"
| "summary_rows total_req total_cap sel_rates sel_caps (grp # grps) =
     do {
       r \<leftarrow> group_row total_req total_cap sel_rates sel_caps grp;
       rs \<leftarrow> summary_rows total_req total_cap sel_rates sel_caps grps;
       Some (r # rs)
     }"

text \<open>\<^verbatim>\<open>groups = sorted({ group_prefix(c) for c in sel_rates + sel_caps })\<close>\<close>

definition groups :: "string list \<Rightarrow> string list \<Rightarrow> string list" where
  "groups sel_rates sel_caps = sort (remdups (map group_prefix (sel_rates @ sel_caps)))"

text \<open>
  The result is the list of rows in the order of the frame, whose index is the group.
  \<^verbatim>\<open>pd.DataFrame(rows).set_index("Group")\<close> raises \<^verbatim>\<open>KeyError\<close> when there is no row at
  all, since the empty frame has no column to index by.
\<close>

definition build_group_summary ::
  "series \<Rightarrow> series \<Rightarrow> string list \<Rightarrow> string list \<Rightarrow> summary_row list option" where
  "build_group_summary total_req total_cap sel_rates sel_caps =
     do {
       rs \<leftarrow> summary_rows total_req total_cap sel_rates sel_caps (groups sel_rates sel_caps);
       if rs = [] then None else Some rs
     }"

subsection \<open>The detail table\<close>

text \<open>
  \<^verbatim>\<open>
  comp_rows = []
  for rate in selected_rates:
      base = rate.replace(RATE_SUFFIX, "")
      caps = [c for c in selected_caps if c.startswith(base)]
      cap_sum = sum(total_cap[c] for c in caps)
      req_val = total_req[rate]
      comp_rows.append({"Subtype": base, "Requirement": req_val, "Capacity": cap_sum,
                        "Surplus/(Deficit)": cap_sum - req_val})
  \<close>
  This is a loop of the script, not a function of its own; the model takes the variables
  it reads as parameters and returns the list it builds.
\<close>

record comp_row =
  Subtype :: string
  Subtype_Requirement :: real
  Subtype_Capacity :: real
  Subtype_Surplus :: real

fun comp_rows :: "series \<Rightarrow> series \<Rightarrow> string list \<Rightarrow> string list \<Rightarrow> comp_row list option" where
  "comp_rows total_req total_cap [] selected_caps = Some []"
| "comp_rows total_req total_cap (rate # rates) selected_caps =
     do {
       cap_sum \<leftarrow> series_sum total_cap (cap_matches selected_caps (base rate));
       req_val \<leftarrow> map_of total_req rate;
       rs \<leftarrow> comp_rows total_req total_cap rates selected_caps;
       Some (\<lparr>Subtype = base rate, Subtype_Requirement = req_val, Subtype_Capacity = cap_sum,
              Subtype_Surplus = cap_sum - req_val\<rparr> # rs)
     }"

subsection \<open>The wording of the specification\<close>

text \<open>
  The definitions of this subsection are not taken from the code. They write down notions
  that the specification uses in its own words, so that they can be compared with what
  the code computes.
\<close>

text \<open>Stripping a suffix: the name without its last \<open>length suf\<close> characters, when it ends so.\<close>

definition strip_suffix :: "string \<Rightarrow> string \<Rightarrow> string" where
  "strip_suffix suf s = (if endswith s suf then take (length s - length suf) s else s)"

text \<open>The number of positions of a string at which a pattern starts.\<close>

fun occurrences :: "string \<Rightarrow> string \<Rightarrow> nat" where
  "occurrences pat [] = 0"
| "occurrences pat (c # cs) = (if prefix pat (c # cs) then 1 else 0) + occurrences pat cs"


text \<open>
  ``A prefix of the form \<^verbatim>\<open>CL_<roman-or-letter>\<close>'': the token after \<^verbatim>\<open>CL_\<close> is not
  empty and made of letters (a Roman numeral is made of letters).
\<close>

definition is_letter :: "char \<Rightarrow> bool" where
  "is_letter c =
     (let n = (of_char c :: nat) in (65 \<le> n \<and> n \<le> 90) \<or> (97 \<le> n \<and> n \<le> 122))"

definition cl_form :: "string \<Rightarrow> bool" where
  "cl_form col =
     (startswith col ''CL_'' \<and>
      (let t = takeWhile (\<lambda>c. c \<noteq> CHR ''_'') (drop 3 col) in t \<noteq> [] \<and> list_all is_letter t))"

text \<open>The three rules of the classifier as the specification words them.\<close>

definition spec_group_prefix :: "string \<Rightarrow> string" where
  "spec_group_prefix col =
     (if cl_form col then ''CL_'' @ takeWhile (\<lambda>c. c \<noteq> CHR ''_'') (drop 3 col)
      else if startswith col ''Recovery_'' then ''Recovery''
      else takeWhile (\<lambda>c. c \<noteq> CHR ''_'') col)"

text \<open>
  The base subtype name as the specification words it: the column without its suffix.
  A rate column is in deficit, in those words, when the surplus of its group is negative
  and its own requirement exceeds the summed totals of the selected capacity columns
  whose base name starts with the base name of the rate column.
\<close>

definition spec_base :: "string \<Rightarrow> string" where
  "spec_base rate = strip_suffix RATE_SUFFIX rate"

definition spec_cap_base :: "string \<Rightarrow> string" where
  "spec_cap_base c = strip_suffix CAP_SUFFIX c"

definition spec_is_deficit :: "series \<Rightarrow> series \<Rightarrow> string list \<Rightarrow> real \<Rightarrow> string \<Rightarrow> bool" where
  "spec_is_deficit total_req total_cap sel_caps surplus rate =
     (surplus < 0 \<and>
      (case (map_of total_req rate,
             series_sum total_cap
               (filter (\<lambda>c. startswith (spec_cap_base c) (spec_base rate)) sel_caps)) of
         (Some r, Some s) \<Rightarrow> s < r
       | _ \<Rightarrow> False))"

text \<open>The value of a decimal digit, to read a digit string back.\<close>

definition digit_value :: "char \<Rightarrow> nat" where
  "digit_value c = of_char c - 48"

subsection \<open>A worked scenario\<close>

text \<open>
  The scenario of the specification (an infantry company that consumes 10 of class III
  per unit in an assault, with a bulk capacity of 4 and a wheeled capacity of 3 per unit,
  counted twice), enlarged by a second rate column without any capacity, a row of
  another action and a unit type that has no count.
\<close>

definition scenario_cons :: "cons_row frame" where
  "scenario_cons =
     \<lparr>columns = [''CL_III_rate'', ''Javelin_rate''],
      rows =
        [\<lparr>unit_type = ''InfantryCo'',
          vals = (\<lambda>c. if c = ''CL_III_rate'' then 10 else if c = ''Javelin_rate'' then 3 else 0),
          action = ''Assault''\<rparr>,
         \<lparr>unit_type = ''InfantryCo'',
          vals = (\<lambda>c. if c = ''CL_III_rate'' then 7 else if c = ''Javelin_rate'' then 1 else 0),
          action = ''Defend''\<rparr>,
         \<lparr>unit_type = ''TankCo'',
          vals = (\<lambda>c. if c = ''CL_III_rate'' then 50 else 0),
          action = ''Assault''\<rparr>]\<rparr>"

definition scenario_cap :: "row frame" where
  "scenario_cap =
     \<lparr>columns = [''CL_III_bulk_cap'', ''CL_III_wheeled_cap''],
      rows =
        [\<lparr>unit_type = ''InfantryCo'',
          vals = (\<lambda>c. if c = ''CL_III_bulk_cap'' then 4
                       else if c = ''CL_III_wheeled_cap'' then 3 else 0)\<rparr>,
         \<lparr>unit_type = ''TankCo'',
          vals = (\<lambda>c. if c = ''CL_III_bulk_cap'' then 100 else 0)\<rparr>]\<rparr>"

definition scenario_rates :: "string list" where
  "scenario_rates = [''CL_III_rate'', ''Javelin_rate'']"

definition scenario_caps :: "string list" where
  "scenario_caps = [''CL_III_bulk_cap'', ''CL_III_wheeled_cap'']"

text \<open>The totals for two infantry companies and no count for the tank company.\<close>

definition scenario_total_req :: series where
  "scenario_total_req = [(''CL_III_rate'', 20), (''Javelin_rate'', 6)]"

definition scenario_total_cap :: series where
  "scenario_total_cap = [(''CL_III_bulk_cap'', 8), (''CL_III_wheeled_cap'', 6)]"

definition scenario_CL_III :: summary_row where
  "scenario_CL_III =
     \<lparr>Group = ''CL_III'', Requirement = 20, Capacity = 14, Surplus = - 6,
      Deficit_Subtypes = ''CL_III'', Bulk_Cap = Some 8, Bulk_Surplus = Some (- 12),
      Wheeled_Cap = Some 6, Wheeled_Surplus = Some (- 14)\<rparr>"

definition scenario_Javelin :: summary_row where
  "scenario_Javelin =
     \<lparr>Group = ''Javelin'', Requirement = 6, Capacity = 0, Surplus = - 6,
      Deficit_Subtypes = ''Javelin'', Bulk_Cap = None, Bulk_Surplus = None,
      Wheeled_Cap = None, Wheeled_Surplus = None\<rparr>"

definition scenario_detail :: "comp_row list" where
  "scenario_detail =
     [\<lparr>Subtype = ''CL_III'', Subtype_Requirement = 20, Subtype_Capacity = 14,
       Subtype_Surplus = - 6\<rparr>,
      \<lparr>Subtype = ''Javelin'', Subtype_Requirement = 6, Subtype_Capacity = 0,
       Subtype_Surplus = - 6\<rparr>]"

text \<open>
  A second selection, in which the base name of a rate column reaches into the suffix of
  a capacity column.
\<close>

definition ammo_total_req :: series where
  "ammo_total_req = [(''Ammo_cap_rate'', 3), (''Ammo_box_rate'', 10)]"

definition ammo_total_cap :: series where
  "ammo_total_cap = [(''Ammo_cap'', 5)]"

section \<open>Lemmas\<close>

subsection \<open>Tokens and the classifier\<close>

lemma split_nonempty: "split sep s \<noteq> []"
  by (induction s) (auto split: list.splits)

lemma split_unfold:
  "split sep s =
     takeWhile (\<lambda>c. c \<noteq> sep) s #
       (case dropWhile (\<lambda>c. c \<noteq> sep) s of [] \<Rightarrow> [] | x # r \<Rightarrow> split sep r)"
  using split_nonempty by (induction s) (auto split: list.splits)

lemma split_first_token: "split sep s ! 0 = takeWhile (\<lambda>c. c \<noteq> sep) s"
  by (subst split_unfold) simp

lemma split_CL_two_tokens:
  assumes "startswith col ''CL_''"
  shows "2 \<le> length (split CHR ''_'' col)"
    and "split CHR ''_'' col ! 0 = ''CL''"
    and "split CHR ''_'' col ! 1 = takeWhile (\<lambda>c. c \<noteq> CHR ''_'') (drop 3 col)"
proof -
  from assms obtain r where col: "col = ''CL_'' @ r"
    by (auto simp: startswith_def prefix_def)
  have s: "split CHR ''_'' col = ''CL'' # split CHR ''_'' r"
    using split_nonempty [of "CHR ''_''" r] by (simp add: col split: list.splits)
  show "2 \<le> length (split CHR ''_'' col)"
    using split_nonempty [of "CHR ''_''" r] by (cases "split CHR ''_'' r") (simp_all add: s)
  show "split CHR ''_'' col ! 0 = ''CL''" by (simp add: s)
  show "split CHR ''_'' col ! 1 = takeWhile (\<lambda>c. c \<noteq> CHR ''_'') (drop 3 col)"
    using split_first_token [of "CHR ''_''" r] by (simp add: s col)
qed

lemma group_prefix_takeWhile:
  "group_prefix col =
     (if startswith col ''CL_'' then ''CL_'' @ takeWhile (\<lambda>c. c \<noteq> CHR ''_'') (drop 3 col)
      else if startswith col ''Recovery_'' then ''Recovery''
      else takeWhile (\<lambda>c. c \<noteq> CHR ''_'') col)"
proof (cases "startswith col ''CL_''")
  case True
  then show ?thesis
    using split_CL_two_tokens(2,3) [OF True] by (simp add: group_prefix_def)
next
  case False
  then show ?thesis
    by (simp add: group_prefix_def split_first_token)
qed

text \<open>With \<^verbatim>\<open>CL_\<close> in front, the group is taken from the name as it stands.\<close>

lemma group_prefix_CL_verbatim:
  assumes "startswith col ''CL_''"
  shows "prefix (group_prefix col) col"
proof -
  from assms obtain r where col: "col = ''CL_'' @ r"
    by (auto simp: startswith_def prefix_def)
  have "prefix (takeWhile (\<lambda>c. c \<noteq> CHR ''_'') r) r"
    by (metis prefixI takeWhile_dropWhile_id)
  then show ?thesis
    using assms by (simp add: group_prefix_takeWhile col)
qed

text \<open>
  The code and the wording of the specification agree on every name but those that start
  with \<^verbatim>\<open>CL_\<close> followed by something else than letters.
\<close>

lemma group_prefix_agrees:
  "cl_form col \<or> \<not> startswith col ''CL_'' \<Longrightarrow> group_prefix col = spec_group_prefix col"
  by (auto simp: group_prefix_takeWhile spec_group_prefix_def cl_form_def)

subsection \<open>Digits and commas\<close>

lemma group3_filter:
  "CHR '','' \<notin> set ds \<Longrightarrow> filter (\<lambda>c. c \<noteq> CHR '','') (group3 ds) = ds"
  by (induction ds rule: group3.induct) auto

lemma group3_length: "length (group3 ds) = length ds + (length ds - 1) div 3"
  by (induction ds rule: group3.induct) auto

lemma group3_nth:
  "CHR '','' \<notin> set ds \<Longrightarrow> j < length (group3 ds) \<Longrightarrow>
     (group3 ds ! j = CHR '','') = (j mod 4 = 3)"
proof (induction ds arbitrary: j rule: group3.induct)
  case (1 a b c d ds)
  show ?case
  proof (cases "j < 4")
    case True
    then have "j = 0 \<or> j = 1 \<or> j = 2 \<or> j = 3" by arith
    with 1(2) show ?thesis by auto
  next
    case False
    then obtain k where k: "j = k + 4" by (metis add.commute le_Suc_ex not_less)
    have "group3 (a # b # c # d # ds) ! j = group3 (d # ds) ! k"
      by (simp add: k)
    moreover have "k < length (group3 (d # ds))" using 1(3) by (simp add: k)
    moreover have "CHR '','' \<notin> set (d # ds)" using 1(2) by simp
    ultimately show ?thesis using 1(1) [of k] by (simp add: k)
  qed
qed (auto simp: less_Suc_eq)

lemma digit_char_not_comma: "d < 10 \<Longrightarrow> digit_char d \<noteq> CHR '',''"
proof -
  assume "d < 10"
  then have "d \<in> {0,1,2,3,4,5,6,7,8,9}" by auto
  then show ?thesis by (auto simp: digit_char_def)
qed

lemma decimal_no_comma: "CHR '','' \<notin> set (decimal n)"
proof (induction n rule: decimal.induct)
  case (1 n)
  show ?case
  proof (cases "n < 10")
    case True
    then show ?thesis using digit_char_not_comma [of n] by (subst decimal.simps) simp
  next
    case False
    then show ?thesis using 1 digit_char_not_comma [of "n mod 10"]
      by (subst decimal.simps) simp
  qed
qed

text \<open>Without its commas, the formatted number is the digit string.\<close>

lemma fmt_commas_digits: "filter (\<lambda>c. c \<noteq> CHR '','') (fmt_commas n) = decimal n"
  using group3_filter [of "rev (decimal n)"] decimal_no_comma [of n]
  by (simp add: fmt_commas_def rev_filter [symmetric])

lemma mod4_Suc: "(j mod 4 = 3) = (Suc j mod 4 = (0::nat))"
  by presburger

text \<open>The commas are the characters at the positions 4, 8, 12, ... counted from the right.\<close>

lemma fmt_commas_positions:
  assumes "i < length (fmt_commas n)"
  shows "(fmt_commas n ! i = CHR '','') = ((length (fmt_commas n) - i) mod 4 = 0)"
proof -
  let ?g = "group3 (rev (decimal n))"
  have len: "length (fmt_commas n) = length ?g" by (simp add: fmt_commas_def)
  let ?j = "length ?g - Suc i"
  have j: "?j < length ?g" using assms len by simp
  have "fmt_commas n ! i = ?g ! ?j"
    using assms len by (simp add: fmt_commas_def rev_nth)
  moreover have "(?g ! ?j = CHR '','') = (?j mod 4 = 3)"
    using group3_nth [OF _ j] decimal_no_comma [of n] by simp
  moreover have "(?j mod 4 = 3) = ((length ?g - i) mod 4 = 0)"
    using assms len mod4_Suc [of ?j] by (simp add: Suc_diff_Suc)
  ultimately show ?thesis by (simp add: len)
qed

lemma py_int_trunc: "py_int v = (if 0 \<le> v then \<lfloor>v\<rfloor> else \<lceil>v\<rceil>)"
  by (auto simp: py_int_def ceiling_def)

lemma py_int_toward_zero:
  "\<bar>real_of_int (py_int v)\<bar> \<le> \<bar>v\<bar> \<and> \<bar>v\<bar> - 1 < \<bar>real_of_int (py_int v)\<bar>"
  unfolding py_int_def by (auto; linarith)

lemma digit_char_value: "d < 10 \<Longrightarrow> of_char (digit_char d) = 48 + d"
proof -
  assume "d < 10"
  then have "d \<in> {0,1,2,3,4,5,6,7,8,9}" by auto
  then show ?thesis by (auto simp: digit_char_def)
qed

text \<open>The digit string reads back as the number.\<close>

lemma decimal_value: "foldl (\<lambda>a c. 10 * a + digit_value c) 0 (decimal n) = n"
proof (induction n rule: decimal.induct)
  case (1 n)
  show ?case
  proof (cases "n < 10")
    case True
    then show ?thesis
      by (subst decimal.simps) (simp add: digit_value_def digit_char_value)
  next
    case False
    then have "foldl (\<lambda>a c. 10 * a + digit_value c) 0 (decimal (n div 10)) = n div 10"
      using 1 by simp
    with False show ?thesis
      by (subst decimal.simps) (simp add: digit_value_def digit_char_value)
  qed
qed

subsection \<open>The base name\<close>

lemma base_Nil: "base [] = []"
  by (simp add: base_def RATE_SUFFIX_def replace.simps)

lemma base_hit: "base (''_rate'' @ s) = base s"
  by (simp add: base_def RATE_SUFFIX_def replace.simps [of _ _ "CHR ''_'' # _"])

lemma base_miss: "\<not> prefix ''_rate'' (c # s) \<Longrightarrow> base (c # s) = c # base s"
  by (auto simp: base_def RATE_SUFFIX_def replace.simps [of _ _ "c # s"])

lemma occurrences_hit: "occurrences ''_rate'' (''_rate'' @ s) = Suc (occurrences ''_rate'' s)"
  by simp

text \<open>Every occurrence of the suffix takes five characters away.\<close>

lemma base_length: "length (base s) + 5 * occurrences ''_rate'' s = length s"
proof (induction s rule: length_induct)
  case (1 s)
  show ?case
  proof (cases s)
    case Nil
    then show ?thesis by (simp add: base_Nil)
  next
    case (Cons c cs)
    show ?thesis
    proof (cases "prefix ''_rate'' s")
      case True
      then obtain r where r: "s = ''_rate'' @ r" by (auto simp: prefix_def)
      have "length r < length s" by (simp add: r)
      with 1 have "length (base r) + 5 * occurrences ''_rate'' r = length r" by blast
      then show ?thesis unfolding r base_hit occurrences_hit by simp
    next
      case False
      have "length cs < length s" by (simp add: Cons)
      with 1 have "length (base cs) + 5 * occurrences ''_rate'' cs = length cs" by blast
      then show ?thesis using False base_miss [of c cs] by (auto simp: Cons)
    qed
  qed
qed

lemma base_no_occurrence: "occurrences ''_rate'' s = 0 \<Longrightarrow> base s = s"
proof (induction s)
  case Nil
  then show ?case by (simp add: base_Nil)
next
  case (Cons c s)
  then show ?case by (auto simp: base_miss split: if_splits)
qed

lemma base_append_suffix:
  "occurrences ''_rate'' (s @ ''_rate'') = 1 \<Longrightarrow> base (s @ ''_rate'') = s"
proof (induction s)
  case Nil
  then show ?case using base_hit [of "[]"] by (simp add: base_Nil)
next
  case (Cons c s)
  have ge: "1 \<le> occurrences ''_rate'' (s @ ''_rate'')"
    by (induction s) auto
  with Cons.prems have np: "\<not> prefix ''_rate'' (c # s @ ''_rate'')"
    and one: "occurrences ''_rate'' (s @ ''_rate'') = 1"
    by (auto split: if_splits)
  from np have "base (c # s @ ''_rate'') = c # base (s @ ''_rate'')"
    by (rule base_miss)
  with Cons.IH [OF one] show ?case by simp
qed

lemma base_strips_suffix:
  assumes "endswith rate RATE_SUFFIX" and "occurrences RATE_SUFFIX rate = 1"
  shows "base rate = strip_suffix RATE_SUFFIX rate"
proof -
  from assms(1) obtain s where s: "rate = s @ ''_rate''"
    by (auto simp: endswith_def RATE_SUFFIX_def suffix_def)
  with assms(2) have "base rate = s"
    using base_append_suffix [of s] by (simp add: RATE_SUFFIX_def)
  moreover have "strip_suffix RATE_SUFFIX rate = s"
    using assms(1) by (simp add: strip_suffix_def s RATE_SUFFIX_def)
  ultimately show ?thesis by simp
qed

lemma base_subseq: "subseq (base s) s"
proof (induction s rule: length_induct)
  case (1 s)
  show ?case
  proof (cases s)
    case Nil
    then show ?thesis by (simp add: base_Nil)
  next
    case (Cons c cs)
    show ?thesis
    proof (cases "prefix ''_rate'' s")
      case True
      then obtain r where r: "s = ''_rate'' @ r" by (auto simp: prefix_def)
      have "length r < length s" by (simp add: r)
      with 1 have "subseq (base r) r" by blast
      then have "subseq (base r) (''_rate'' @ r)" by (rule list_emb_append2)
      then show ?thesis unfolding r base_hit .
    next
      case False
      have "length cs < length s" by (simp add: Cons)
      with 1 have "subseq (base cs) cs" by blast
      then show ?thesis using False by (simp add: Cons base_miss)
    qed
  qed
qed


subsection \<open>Totals\<close>


lemma map_of_column_sums_outside:
  "c \<notin> set sel \<Longrightarrow> map_of (column_sums sel rs) c = None"
  by (simp add: column_sums_def map_of_map_restrict)

lemma fst_column_sums: "map fst (column_sums sel rs) = sel"
  by (simp add: column_sums_def comp_def)



lemma compute_totals_Some:
  assumes "compute_totals cons_df cap_df act unit_counts sel_rates sel_caps =
             Some (req_detail, cap_detail, total_req, total_cap)"
  shows "total_req = column_sums sel_rates
           (map scale_row (with_count unit_counts (filter (\<lambda>r. action r = act) (rows cons_df))))"
    and "total_cap = column_sums sel_caps (map scale_row (with_count unit_counts (rows cap_df)))"
    and "req_detail = \<lparr>columns = sel_rates, rows =
           map scale_row (with_count unit_counts (filter (\<lambda>r. action r = act) (rows cons_df)))\<rparr>"
    and "cap_detail = \<lparr>columns = sel_caps, rows =
           map scale_row (with_count unit_counts (rows cap_df))\<rparr>"
  using assms by (auto simp: compute_totals_def Let_def split: if_splits)







subsection \<open>Series\<close>

lemma those_map_Some:
  "those (map f ks) = Some vs \<longleftrightarrow> list_all2 (\<lambda>k v. f k = Some v) ks vs"
proof (induction ks arbitrary: vs)
  case Nil
  then show ?case by auto
next
  case (Cons k ks)
  then show ?case by (cases vs) (auto split: option.splits)
qed

lemma series_sum_Some:
  "series_sum s keys = Some v \<longleftrightarrow>
     (\<exists>vs. list_all2 (\<lambda>k x. map_of s k = Some x) keys vs \<and> v = sum_list vs)"
  by (auto simp: series_sum_def those_map_Some)

lemma series_sum_Nil: "series_sum s [] = Some 0"
  by (simp add: series_sum_def)

lemma series_sum_total:
  assumes "set keys \<subseteq> fst ` set s"
  shows "\<exists>v. series_sum s keys = Some v"
proof -
  have "\<exists>vs. list_all2 (\<lambda>k x. map_of s k = Some x) keys vs"
    using assms
  proof (induction keys)
    case Nil
    then show ?case by simp
  next
    case (Cons k ks)
    then obtain vs where vs: "list_all2 (\<lambda>k x. map_of s k = Some x) ks vs" by auto
    from Cons.prems have "k \<in> fst ` set s" by simp
    then obtain x where "map_of s k = Some x"
      by (metis domIff dom_map_of_conv_image_fst not_Some_eq)
    with vs have "list_all2 (\<lambda>k x. map_of s k = Some x) (k # ks) (x # vs)" by simp
    then show ?case by blast
  qed
  then show ?thesis by (auto simp: series_sum_Some)
qed


subsection \<open>Rows of the summary and of the detail table\<close>

lemma deficit_loop_Some:
  "deficit_loop total_req total_cap sel_caps rates acc = Some d \<Longrightarrow>
     d = acc @ map base (filter (\<lambda>rate. \<exists>r s. map_of total_req rate = Some r \<and>
            series_sum total_cap (cap_matches sel_caps (base rate)) = Some s \<and> s < r) rates)"
proof (induction rates arbitrary: acc)
  case Nil
  then show ?case by simp
next
  case (Cons rate rates)
  from Cons.prems obtain r s where r: "map_of total_req rate = Some r"
    and s: "series_sum total_cap (cap_matches sel_caps (base rate)) = Some s"
    and rest: "deficit_loop total_req total_cap sel_caps rates
                 (if r > s then acc @ [base rate] else acc) = Some d"
    by (auto split: bind_splits)
  from Cons.IH [OF rest] show ?case by (simp add: r s)
qed

lemma deficit_subtypes_Some:
  assumes "deficit_subtypes total_req total_cap sel_caps grp_rates surplus = Some d"
  shows "d = (if surplus < 0 then map base (filter (\<lambda>rate. \<exists>r s. map_of total_req rate = Some r \<and>
            series_sum total_cap (cap_matches sel_caps (base rate)) = Some s \<and> s < r) grp_rates)
          else [])"
  using assms deficit_loop_Some [of total_req total_cap sel_caps grp_rates "[]" d]
  by (auto simp: deficit_subtypes_def split: if_splits)

lemma group_row_fields:
  assumes "group_row total_req total_cap sel_rates sel_caps grp = Some row"
  shows "Group row = grp"
    and "(if filter (\<lambda>c. group_prefix c = grp) sel_rates \<noteq> []
          then series_sum total_req (filter (\<lambda>c. group_prefix c = grp) sel_rates)
          else Some 0) = Some (Requirement row)"
    and "(if filter (\<lambda>c. group_prefix c = grp) sel_caps \<noteq> []
          then series_sum total_cap (filter (\<lambda>c. group_prefix c = grp) sel_caps)
          else Some 0) = Some (Capacity row)"
    and "Surplus row = Capacity row - Requirement row"
    and "\<exists>deficit. deficit_subtypes total_req total_cap sel_caps
            (filter (\<lambda>c. group_prefix c = grp) sel_rates) (Surplus row) = Some deficit \<and>
          Deficit_Subtypes row = show_deficit deficit"
    and "(if filter (contains ''_bulk_cap'') (filter (\<lambda>c. group_prefix c = grp) sel_caps) \<noteq> []
          then map_option Some (series_sum total_cap
                 (filter (contains ''_bulk_cap'') (filter (\<lambda>c. group_prefix c = grp) sel_caps)))
          else Some None) = Some (Bulk_Cap row)"
    and "(if filter (contains ''_wheeled_cap'') (filter (\<lambda>c. group_prefix c = grp) sel_caps) \<noteq> []
          then map_option Some (series_sum total_cap
                 (filter (contains ''_wheeled_cap'') (filter (\<lambda>c. group_prefix c = grp) sel_caps)))
          else Some None) = Some (Wheeled_Cap row)"
    and "Bulk_Surplus row = map_option (\<lambda>b. b - Requirement row) (Bulk_Cap row)"
    and "Wheeled_Surplus row = map_option (\<lambda>w. w - Requirement row) (Wheeled_Cap row)"
  using assms unfolding group_row_def Let_def
  by (auto split: bind_splits)

lemma summary_rows_member:
  "summary_rows total_req total_cap sel_rates sel_caps gs = Some rs \<Longrightarrow> row \<in> set rs \<Longrightarrow>
     \<exists>g\<in>set gs. group_row total_req total_cap sel_rates sel_caps g = Some row"
proof (induction gs arbitrary: rs)
  case Nil
  then show ?case by simp
next
  case (Cons g gs)
  then show ?case by (auto split: bind_splits)
qed

lemma summary_rows_groups:
  "summary_rows total_req total_cap sel_rates sel_caps gs = Some rs \<Longrightarrow> map Group rs = gs"
proof (induction gs arbitrary: rs)
  case Nil
  then show ?case by simp
next
  case (Cons g gs)
  then show ?case by (auto split: bind_splits simp: group_row_fields(1))
qed

lemma build_group_summary_member:
  assumes "build_group_summary total_req total_cap sel_rates sel_caps = Some rs"
    and "row \<in> set rs"
  shows "group_row total_req total_cap sel_rates sel_caps (Group row) = Some row"
proof -
  from assms(1) have "summary_rows total_req total_cap sel_rates sel_caps
      (groups sel_rates sel_caps) = Some rs"
    by (auto simp: build_group_summary_def split: bind_splits if_splits)
  from summary_rows_member [OF this assms(2)] show ?thesis
    by (auto simp: group_row_fields(1))
qed

lemma build_group_summary_groups:
  assumes "build_group_summary total_req total_cap sel_rates sel_caps = Some rs"
  shows "map Group rs = groups sel_rates sel_caps"
proof -
  from assms(1) have "summary_rows total_req total_cap sel_rates sel_caps
      (groups sel_rates sel_caps) = Some rs"
    by (auto simp: build_group_summary_def split: bind_splits if_splits)
  then show ?thesis by (rule summary_rows_groups)
qed

lemma optional_sum:
  assumes "(if keys \<noteq> [] then map_option Some (series_sum s keys) else Some None) = Some x"
  shows "(x \<noteq> None \<longleftrightarrow> keys \<noteq> [])
       \<and> (keys \<noteq> [] \<longrightarrow> (\<exists>vs. list_all2 (\<lambda>c v. map_of s c = Some v) keys vs
                               \<and> x = Some (sum_list vs)))"
  using assms by (auto simp: series_sum_Some split: if_splits)

lemma filter_group_contains:
  "filter (contains sub) (filter (\<lambda>c. group_prefix c = g) sel_caps) =
     filter (\<lambda>c. group_prefix c = g \<and> contains sub c) sel_caps"
  by (simp add: conj_commute)

lemma comp_rows_Some:
  "comp_rows total_req total_cap rates caps = Some rs \<Longrightarrow>
     list_all2 (\<lambda>rate row.
         Subtype row = base rate
       \<and> map_of total_req rate = Some (Subtype_Requirement row)
       \<and> series_sum total_cap (filter (\<lambda>c. startswith c (base rate)) caps) = Some (Subtype_Capacity row)
       \<and> Subtype_Surplus row = Subtype_Capacity row - Subtype_Requirement row) rates rs"
proof (induction rates arbitrary: rs)
  case Nil
  then show ?case by simp
next
  case (Cons rate rates)
  then show ?case by (auto split: bind_splits simp: cap_matches_def)
qed



subsection \<open>The summary never fails on the totals of its own selection\<close>

lemma deficit_loop_total:
  assumes "set rates \<subseteq> fst ` set total_req" and "set sel_caps \<subseteq> fst ` set total_cap"
  shows "\<exists>d. deficit_loop total_req total_cap sel_caps rates acc = Some d"
  using assms(1)
proof (induction rates arbitrary: acc)
  case Nil
  then show ?case by simp
next
  case (Cons rate rates)
  from Cons.prems have "rate \<in> fst ` set total_req" by simp
  then obtain r where r: "map_of total_req rate = Some r"
    by (metis domIff dom_map_of_conv_image_fst not_Some_eq)
  have "set (cap_matches sel_caps (base rate)) \<subseteq> fst ` set total_cap"
    using assms(2) by (auto simp: cap_matches_def)
  from series_sum_total [OF this] obtain s where
    s: "series_sum total_cap (cap_matches sel_caps (base rate)) = Some s" by blast
  from Cons.prems have "set rates \<subseteq> fst ` set total_req" by simp
  from Cons.IH [OF this] show ?case by (simp add: r s)
qed

lemma group_row_total:
  assumes "set sel_rates \<subseteq> fst ` set total_req" and "set sel_caps \<subseteq> fst ` set total_cap"
  shows "\<exists>row. group_row total_req total_cap sel_rates sel_caps grp = Some row"
proof -
  let ?gr = "filter (\<lambda>c. group_prefix c = grp) sel_rates"
  let ?gc = "filter (\<lambda>c. group_prefix c = grp) sel_caps"
  let ?bk = "filter (contains ''_bulk_cap'') ?gc"
  let ?wk = "filter (contains ''_wheeled_cap'') ?gc"
  have gr: "set ?gr \<subseteq> fst ` set total_req" and gc: "set ?gc \<subseteq> fst ` set total_cap"
    and bk: "set ?bk \<subseteq> fst ` set total_cap" and wk: "set ?wk \<subseteq> fst ` set total_cap"
    using assms by auto
  have "\<exists>rq. (if ?gr \<noteq> [] then series_sum total_req ?gr else Some 0) = Some rq"
    using series_sum_total [OF gr] by (cases "?gr = []") simp_all
  then obtain rq where
    rq: "(if ?gr \<noteq> [] then series_sum total_req ?gr else Some 0) = Some rq" ..
  have "\<exists>cp. (if ?gc \<noteq> [] then series_sum total_cap ?gc else Some 0) = Some cp"
    using series_sum_total [OF gc] by (cases "?gc = []") simp_all
  then obtain cp where
    cp: "(if ?gc \<noteq> [] then series_sum total_cap ?gc else Some 0) = Some cp" ..
  have "\<exists>b. (if ?bk \<noteq> [] then map_option Some (series_sum total_cap ?bk) else Some None) = Some b"
    using series_sum_total [OF bk] by (cases "?bk = []") auto
  then obtain b where
    b: "(if ?bk \<noteq> [] then map_option Some (series_sum total_cap ?bk) else Some None) = Some b" ..
  have "\<exists>w. (if ?wk \<noteq> [] then map_option Some (series_sum total_cap ?wk) else Some None) = Some w"
    using series_sum_total [OF wk] by (cases "?wk = []") auto
  then obtain w where
    w: "(if ?wk \<noteq> [] then map_option Some (series_sum total_cap ?wk) else Some None) = Some w" ..
  have "\<exists>d. deficit_subtypes total_req total_cap sel_caps ?gr (cp - rq) = Some d"
    using deficit_loop_total [OF gr assms(2), of "[]"]
    by (cases "cp - rq < 0") (simp_all add: deficit_subtypes_def)
  then obtain d where
    d: "deficit_subtypes total_req total_cap sel_caps ?gr (cp - rq) = Some d" ..
  show ?thesis
    unfolding group_row_def Let_def rq cp b w d Option.bind.simps by blast
qed

lemma summary_rows_total:
  assumes "set sel_rates \<subseteq> fst ` set total_req" and "set sel_caps \<subseteq> fst ` set total_cap"
  shows "\<exists>rs. summary_rows total_req total_cap sel_rates sel_caps gs = Some rs \<and>
           length rs = length gs"
proof (induction gs)
  case Nil
  then show ?case by simp
next
  case (Cons g gs)
  then obtain rs where "summary_rows total_req total_cap sel_rates sel_caps gs = Some rs"
    "length rs = length gs" by blast
  moreover from group_row_total [OF assms] obtain row where
    "group_row total_req total_cap sel_rates sel_caps g = Some row" by blast
  ultimately show ?case by simp
qed

lemma groups_nonempty: "sel_rates @ sel_caps \<noteq> [] \<Longrightarrow> groups sel_rates sel_caps \<noteq> []"
proof -
  assume "sel_rates @ sel_caps \<noteq> []"
  then have "set (sel_rates @ sel_caps) \<noteq> {}" by simp
  then have "set (groups sel_rates sel_caps) \<noteq> {}"
    unfolding groups_def by simp
  then show ?thesis by auto
qed

lemma build_group_summary_total:
  assumes "set sel_rates \<subseteq> fst ` set total_req" and "set sel_caps \<subseteq> fst ` set total_cap"
    and "sel_rates @ sel_caps \<noteq> []"
  shows "\<exists>rs. build_group_summary total_req total_cap sel_rates sel_caps = Some rs"
proof -
  from summary_rows_total [OF assms(1,2)] obtain rs where
    rs: "summary_rows total_req total_cap sel_rates sel_caps (groups sel_rates sel_caps) = Some rs"
    and l: "length rs = length (groups sel_rates sel_caps)" by blast
  from l groups_nonempty [OF assms(3)] have "rs \<noteq> []" by auto
  with rs show ?thesis by (simp add: build_group_summary_def)
qed

lemma pipeline_total:
  assumes "compute_totals cons_df cap_df act unit_counts sel_rates sel_caps =
             Some (req_detail, cap_detail, total_req, total_cap)"
    and "sel_rates @ sel_caps \<noteq> []"
  shows "\<exists>rs. build_group_summary total_req total_cap sel_rates sel_caps = Some rs"
proof -
  have "map fst total_req = sel_rates" "map fst total_cap = sel_caps"
    by (simp_all only: compute_totals_Some(1,2) [OF assms(1)] fst_column_sums)
  then have "set sel_rates \<subseteq> fst ` set total_req" "set sel_caps \<subseteq> fst ` set total_cap"
    by (metis set_map subset_refl)+
  then show ?thesis using assms(2) by (rule build_group_summary_total)
qed

subsection \<open>The scenario, evaluated\<close>

lemmas scenario_defs = scenario_cons_def scenario_cap_def scenario_rates_def scenario_caps_def
  scenario_total_req_def scenario_total_cap_def


lemma scenario_base: "base ''CL_III_rate'' = ''CL_III''" "base ''Javelin_rate'' = ''Javelin''"
  by (simp_all add: base_def RATE_SUFFIX_def replace.simps)

lemma scenario_group_prefix:
  "group_prefix ''CL_III_rate'' = ''CL_III''"
  "group_prefix ''Javelin_rate'' = ''Javelin''"
  "group_prefix ''CL_III_bulk_cap'' = ''CL_III''"
  "group_prefix ''CL_III_wheeled_cap'' = ''CL_III''"
  by (simp_all add: group_prefix_def startswith_def)

lemma scenario_groups: "groups scenario_rates scenario_caps = [''CL_III'', ''Javelin'']"
  by (simp add: groups_def scenario_defs scenario_group_prefix)

lemma scenario_summary:
  "build_group_summary scenario_total_req scenario_total_cap scenario_rates scenario_caps =
     Some [scenario_CL_III, scenario_Javelin]"
  unfolding build_group_summary_def scenario_groups
  by (simp add: group_row_def scenario_defs scenario_group_prefix scenario_base
      series_sum_def deficit_subtypes_def cap_matches_def startswith_def contains_def
      show_deficit_def scenario_CL_III_def scenario_Javelin_def sublist_code)

lemma scenario_comp_rows:
  "comp_rows scenario_total_req scenario_total_cap scenario_rates scenario_caps =
     Some scenario_detail"
  by (simp add: scenario_defs scenario_detail_def scenario_base series_sum_def cap_matches_def
      startswith_def)

lemma ammo_group_prefix:
  "group_prefix ''Ammo_cap_rate'' = ''Ammo''"
  "group_prefix ''Ammo_box_rate'' = ''Ammo''"
  "group_prefix ''Ammo_cap'' = ''Ammo''"
  by (simp_all add: group_prefix_def startswith_def)

lemma ammo_base:
  "base ''Ammo_cap_rate'' = ''Ammo_cap''"
  "base ''Ammo_box_rate'' = ''Ammo_box''"
  by (simp_all add: base_def RATE_SUFFIX_def replace.simps)

lemma ammo_summary:
  "build_group_summary ammo_total_req ammo_total_cap
     [''Ammo_cap_rate'', ''Ammo_box_rate''] [''Ammo_cap''] =
     Some [\<lparr>Group = ''Ammo'', Requirement = 13, Capacity = 5, Surplus = - 8,
            Deficit_Subtypes = ''Ammo_box'', Bulk_Cap = None, Bulk_Surplus = None,
            Wheeled_Cap = None, Wheeled_Surplus = None\<rparr>]"
  by (simp add: build_group_summary_def groups_def ammo_group_prefix ammo_base group_row_def
      series_sum_def deficit_subtypes_def cap_matches_def startswith_def contains_def
      show_deficit_def sublist_code ammo_total_req_def ammo_total_cap_def)

section \<open>The claims\<close>

subsection \<open>C1: which subtypes are listed as deficit subtypes\<close>

text \<open>
  C1, as amended. For every row of the group summary there is a list of deficit subtypes
  that the field \<open>Deficit_Subtypes\<close> shows (joined by a comma and a blank, or the
  placeholder \<^verbatim>\<open>-\<close> when it is empty), and a name is in that list if and only if the
  surplus of the group is strictly negative and the name is the base name of a selected
  rate column of the group whose own total requirement strictly exceeds the summed
  totals of all selected capacity columns whose full column name starts with that base
  name. The base name is the rate column with every occurrence of \<^verbatim>\<open>_rate\<close> removed.
  When the surplus is not negative the list is empty and the field is the placeholder.
\<close>

theorem deficit_subtypes_listed:
  assumes "build_group_summary total_req total_cap sel_rates sel_caps = Some rs"
    and "row \<in> set rs"
  shows "\<exists>deficit.
           Deficit_Subtypes row = (if deficit \<noteq> [] then join '', '' deficit else ''-'')
         \<and> (\<forall>n. n \<in> set deficit \<longleftrightarrow>
               Surplus row < 0 \<and>
               (\<exists>rate\<in>set sel_rates. group_prefix rate = Group row \<and> n = base rate \<and>
                  (\<exists>r s. map_of total_req rate = Some r \<and>
                         series_sum total_cap
                           (filter (\<lambda>c. startswith c (base rate)) sel_caps) = Some s \<and>
                         s < r)))
         \<and> (0 \<le> Surplus row \<longrightarrow> deficit = [] \<and> Deficit_Subtypes row = ''-'')"
proof -
  note g = build_group_summary_member [OF assms]
  from group_row_fields(5) [OF g] obtain deficit where
    d: "deficit_subtypes total_req total_cap sel_caps
          (filter (\<lambda>c. group_prefix c = Group row) sel_rates) (Surplus row) = Some deficit"
    and s: "Deficit_Subtypes row = show_deficit deficit"
    by blast
  have 1: "Deficit_Subtypes row = (if deficit \<noteq> [] then join '', '' deficit else ''-'')"
    using s by (simp add: show_deficit_def)
  have 2: "n \<in> set deficit \<longleftrightarrow>
               Surplus row < 0 \<and>
               (\<exists>rate\<in>set sel_rates. group_prefix rate = Group row \<and> n = base rate \<and>
                  (\<exists>r s. map_of total_req rate = Some r \<and>
                         series_sum total_cap
                           (filter (\<lambda>c. startswith c (base rate)) sel_caps) = Some s \<and>
                         s < r))" for n
    unfolding deficit_subtypes_Some [OF d] cap_matches_def by auto
  have 3: "0 \<le> Surplus row \<longrightarrow> deficit = [] \<and> Deficit_Subtypes row = ''-''"
    using 1 unfolding deficit_subtypes_Some [OF d] by simp
  from 1 2 3 show ?thesis by blast
qed

text \<open>
  The theorem at the row of class III of the scenario: the group is short by 6, and its
  only rate column needs 20 against a matched capacity of 14.
\<close>

theorem deficit_subtypes_listed_witness:
  "build_group_summary scenario_total_req scenario_total_cap scenario_rates scenario_caps =
     Some [scenario_CL_III, scenario_Javelin]
   \<and> scenario_CL_III \<in> set [scenario_CL_III, scenario_Javelin]
   \<and> (\<exists>deficit.
           Deficit_Subtypes scenario_CL_III =
             (if deficit \<noteq> [] then join '', '' deficit else ''-'')
         \<and> (''CL_III'' \<in> set deficit) =
             (Surplus scenario_CL_III < 0 \<and>
               (\<exists>rate\<in>set scenario_rates.
                  group_prefix rate = Group scenario_CL_III \<and> ''CL_III'' = base rate \<and>
                  (\<exists>r s. map_of scenario_total_req rate = Some r \<and>
                         series_sum scenario_total_cap
                           (filter (\<lambda>c. startswith c (base rate)) scenario_caps) = Some s \<and>
                         s < r))))"
proof -
  have m: "scenario_CL_III \<in> set [scenario_CL_III, scenario_Javelin]" by simp
  from deficit_subtypes_listed [OF scenario_summary m] obtain deficit where
    "Deficit_Subtypes scenario_CL_III = (if deficit \<noteq> [] then join '', '' deficit else ''-'')"
    and "\<forall>n. n \<in> set deficit \<longleftrightarrow>
               Surplus scenario_CL_III < 0 \<and>
               (\<exists>rate\<in>set scenario_rates.
                  group_prefix rate = Group scenario_CL_III \<and> n = base rate \<and>
                  (\<exists>r s. map_of scenario_total_req rate = Some r \<and>
                         series_sum scenario_total_cap
                           (filter (\<lambda>c. startswith c (base rate)) scenario_caps) = Some s \<and>
                         s < r))"
    by blast
  with scenario_summary m show ?thesis by blast
qed

text \<open>
  The claim as it is worded fails where the base name of a rate column reaches into the
  suffix of a capacity column. The rate column \<^verbatim>\<open>Ammo_cap_rate\<close> needs 3; the capacity
  column \<^verbatim>\<open>Ammo_cap\<close> offers 5 and its name starts with the base name \<^verbatim>\<open>Ammo_cap\<close>, so the
  code does not list the subtype. The base name of the capacity column is \<^verbatim>\<open>Ammo\<close>, which
  does not start with \<^verbatim>\<open>Ammo_cap\<close>: in the words of the claim the matched capacity is 0,
  the requirement exceeds it, the group is short by 8, and the subtype should be listed.
\<close>

theorem deficit_subtypes_counterexample:
  "build_group_summary ammo_total_req ammo_total_cap
     [''Ammo_cap_rate'', ''Ammo_box_rate''] [''Ammo_cap''] =
     Some [\<lparr>Group = ''Ammo'', Requirement = 13, Capacity = 5, Surplus = - 8,
            Deficit_Subtypes = ''Ammo_box'', Bulk_Cap = None, Bulk_Surplus = None,
            Wheeled_Cap = None, Wheeled_Surplus = None\<rparr>]
   \<and> group_prefix ''Ammo_cap_rate'' = ''Ammo''
   \<and> spec_base ''Ammo_cap_rate'' = ''Ammo_cap''
   \<and> spec_is_deficit ammo_total_req ammo_total_cap [''Ammo_cap''] (- 8) ''Ammo_cap_rate''"
proof -
  have "spec_base ''Ammo_cap_rate'' = ''Ammo_cap''"
    by (simp add: spec_base_def strip_suffix_def endswith_def RATE_SUFFIX_def suffix_to_prefix)
  moreover have
    "spec_is_deficit ammo_total_req ammo_total_cap [''Ammo_cap''] (- 8) ''Ammo_cap_rate''"
    by (simp add: spec_is_deficit_def spec_base_def spec_cap_base_def strip_suffix_def
        endswith_def RATE_SUFFIX_def CAP_SUFFIX_def suffix_to_prefix startswith_def
        series_sum_def ammo_total_req_def ammo_total_cap_def)
  ultimately show ?thesis using ammo_summary ammo_group_prefix(1) by (intro conjI)
qed

subsection \<open>C2: what the totals are made of\<close>



subsection \<open>C3: the totals are linear in the unit counts\<close>



subsection \<open>C4: surplus is capacity minus requirement\<close>

text \<open>
  C4. In every row of the group summary the surplus is exactly the capacity minus the
  requirement, the requirement is the sum of the total requirements of the selected rate
  columns of the row's group, and the capacity is the sum of the total capacities of
  the selected capacity columns of that group; a sum over no column is 0.
\<close>

theorem surplus_consistency:
  assumes "build_group_summary total_req total_cap sel_rates sel_caps = Some rs"
    and "row \<in> set rs"
  shows "Surplus row = Capacity row - Requirement row
       \<and> (\<exists>vs. list_all2 (\<lambda>c v. map_of total_req c = Some v)
                 (filter (\<lambda>c. group_prefix c = Group row) sel_rates) vs
               \<and> Requirement row = sum_list vs)
       \<and> (\<exists>vs. list_all2 (\<lambda>c v. map_of total_cap c = Some v)
                 (filter (\<lambda>c. group_prefix c = Group row) sel_caps) vs
               \<and> Capacity row = sum_list vs)
       \<and> (filter (\<lambda>c. group_prefix c = Group row) sel_rates = [] \<longrightarrow> Requirement row = 0)
       \<and> (filter (\<lambda>c. group_prefix c = Group row) sel_caps = [] \<longrightarrow> Capacity row = 0)"
proof -
  note g = build_group_summary_member [OF assms]
  have r: "series_sum total_req (filter (\<lambda>c. group_prefix c = Group row) sel_rates)
          = Some (Requirement row)"
    using group_row_fields(2) [OF g] by (simp add: series_sum_Nil split: if_splits)
  have c: "series_sum total_cap (filter (\<lambda>c. group_prefix c = Group row) sel_caps)
          = Some (Capacity row)"
    using group_row_fields(3) [OF g] by (simp add: series_sum_Nil split: if_splits)
  have r0: "filter (\<lambda>c. group_prefix c = Group row) sel_rates = [] \<longrightarrow> Requirement row = 0"
    using group_row_fields(2) [OF g] by (simp split: if_splits)
  have c0: "filter (\<lambda>c. group_prefix c = Group row) sel_caps = [] \<longrightarrow> Capacity row = 0"
    using group_row_fields(3) [OF g] by (simp split: if_splits)
  from r c r0 c0 show ?thesis
    using group_row_fields(4) [OF g] by (simp add: series_sum_Some)
qed

text \<open>
  The theorem at the row of the scenario that has no capacity column at all: requirement
  6, capacity 0, surplus -6.
\<close>

theorem surplus_consistency_witness:
  "build_group_summary scenario_total_req scenario_total_cap scenario_rates scenario_caps =
     Some [scenario_CL_III, scenario_Javelin]
   \<and> scenario_Javelin \<in> set [scenario_CL_III, scenario_Javelin]
   \<and> Surplus scenario_Javelin = Capacity scenario_Javelin - Requirement scenario_Javelin
   \<and> (\<exists>vs. list_all2 (\<lambda>c v. map_of scenario_total_req c = Some v)
             (filter (\<lambda>c. group_prefix c = Group scenario_Javelin) scenario_rates) vs
           \<and> Requirement scenario_Javelin = sum_list vs)
   \<and> (\<exists>vs. list_all2 (\<lambda>c v. map_of scenario_total_cap c = Some v)
             (filter (\<lambda>c. group_prefix c = Group scenario_Javelin) scenario_caps) vs
           \<and> Capacity scenario_Javelin = sum_list vs)
   \<and> filter (\<lambda>c. group_prefix c = Group scenario_Javelin) scenario_caps = []
   \<and> Capacity scenario_Javelin = 0"
proof -
  have m: "scenario_Javelin \<in> set [scenario_CL_III, scenario_Javelin]" by simp
  have e: "filter (\<lambda>c. group_prefix c = Group scenario_Javelin) scenario_caps = []"
    by (simp add: scenario_Javelin_def scenario_caps_def scenario_group_prefix)
  from surplus_consistency [OF scenario_summary m] scenario_summary m e
  show ?thesis by blast
qed

subsection \<open>C5: the rules of the group classifier\<close>

text \<open>
  C5, as amended. For every column name the classifier applies three rules in this order.
  If the name starts with \<^verbatim>\<open>CL_\<close>, whatever follows, the group is \<^verbatim>\<open>CL_\<close> followed by the
  second underscore-delimited token, that is the first two tokens as they stand in the
  name. Else, if the name starts with \<^verbatim>\<open>Recovery_\<close>, the group is \<^verbatim>\<open>Recovery\<close>. Else the
  group is the first underscore-delimited token of the name.
\<close>

theorem group_prefix_rules:
  "group_prefix col =
     (if startswith col ''CL_'' then ''CL_'' @ takeWhile (\<lambda>c. c \<noteq> CHR ''_'') (drop 3 col)
      else if startswith col ''Recovery_'' then ''Recovery''
      else takeWhile (\<lambda>c. c \<noteq> CHR ''_'') col)"
  by (rule group_prefix_takeWhile)

text \<open>The theorem at a column of class III.\<close>

theorem group_prefix_rules_witness:
  "startswith ''CL_III_bulk_cap'' ''CL_'' \<and> group_prefix ''CL_III_bulk_cap'' = ''CL_III''"
  using group_prefix_rules [of "''CL_III_bulk_cap''"] by (simp add: startswith_def)

text \<open>
  The claim as it is worded restricts the first rule to a second token that is a Roman
  numeral or a letter. The code does not look at the second token: a class written with a
  digit gets its two-token group all the same, where the wording gives the first token.
\<close>

theorem group_prefix_counterexample:
  "group_prefix ''CL_3_rate'' = ''CL_3'' \<and> spec_group_prefix ''CL_3_rate'' = ''CL''"
  by (simp add: group_prefix_def spec_group_prefix_def cl_form_def startswith_def is_letter_def)

subsection \<open>C6: the bulk and wheeled fields\<close>

text \<open>
  C6. In every row of the group summary, the bulk capacity is present if and only if a
  selected capacity column of the row's group contains \<^verbatim>\<open>_bulk_cap\<close>, and the bulk
  surplus is present exactly when the bulk capacity is. When present, the bulk capacity
  is the sum of the total capacities of those columns, and the bulk surplus is that sum
  minus the whole requirement of the group. The same holds for the wheeled capacity and
  surplus with \<^verbatim>\<open>_wheeled_cap\<close>.
\<close>

theorem bulk_wheeled_fields:
  assumes "build_group_summary total_req total_cap sel_rates sel_caps = Some rs"
    and "row \<in> set rs"
  shows "(Bulk_Cap row \<noteq> None \<longleftrightarrow>
            (\<exists>c\<in>set sel_caps. group_prefix c = Group row \<and> contains ''_bulk_cap'' c))
       \<and> (Bulk_Surplus row \<noteq> None \<longleftrightarrow> Bulk_Cap row \<noteq> None)
       \<and> (\<forall>b. Bulk_Cap row = Some b \<longrightarrow>
            (\<exists>vs. list_all2 (\<lambda>c v. map_of total_cap c = Some v)
                    (filter (\<lambda>c. group_prefix c = Group row \<and> contains ''_bulk_cap'' c) sel_caps) vs
                  \<and> b = sum_list vs)
            \<and> Bulk_Surplus row = Some (b - Requirement row))
       \<and> (Wheeled_Cap row \<noteq> None \<longleftrightarrow>
            (\<exists>c\<in>set sel_caps. group_prefix c = Group row \<and> contains ''_wheeled_cap'' c))
       \<and> (Wheeled_Surplus row \<noteq> None \<longleftrightarrow> Wheeled_Cap row \<noteq> None)
       \<and> (\<forall>w. Wheeled_Cap row = Some w \<longrightarrow>
            (\<exists>vs. list_all2 (\<lambda>c v. map_of total_cap c = Some v)
                    (filter (\<lambda>c. group_prefix c = Group row \<and> contains ''_wheeled_cap'' c) sel_caps) vs
                  \<and> w = sum_list vs)
            \<and> Wheeled_Surplus row = Some (w - Requirement row))"
proof -
  note g = build_group_summary_member [OF assms(1,2)]
  let ?bk = "filter (\<lambda>c. group_prefix c = Group row \<and> contains ''_bulk_cap'' c) sel_caps"
  let ?wk = "filter (\<lambda>c. group_prefix c = Group row \<and> contains ''_wheeled_cap'' c) sel_caps"
  have ne: "(filter P sel_caps \<noteq> []) = (\<exists>c\<in>set sel_caps. P c)" for P
    by (simp add: filter_empty_conv)
  have b: "(Bulk_Cap row \<noteq> None \<longleftrightarrow> ?bk \<noteq> [])
       \<and> (?bk \<noteq> [] \<longrightarrow> (\<exists>vs. list_all2 (\<lambda>c v. map_of total_cap c = Some v) ?bk vs
                               \<and> Bulk_Cap row = Some (sum_list vs)))"
    using group_row_fields(6) [OF g] unfolding filter_group_contains
    by (rule optional_sum)
  have w: "(Wheeled_Cap row \<noteq> None \<longleftrightarrow> ?wk \<noteq> [])
       \<and> (?wk \<noteq> [] \<longrightarrow> (\<exists>vs. list_all2 (\<lambda>c v. map_of total_cap c = Some v) ?wk vs
                               \<and> Wheeled_Cap row = Some (sum_list vs)))"
    using group_row_fields(7) [OF g] unfolding filter_group_contains
    by (rule optional_sum)
  have bs: "Bulk_Surplus row = map_option (\<lambda>b. b - Requirement row) (Bulk_Cap row)"
    by (rule group_row_fields(8) [OF g])
  have ws: "Wheeled_Surplus row = map_option (\<lambda>w. w - Requirement row) (Wheeled_Cap row)"
    by (rule group_row_fields(9) [OF g])
  have 1: "Bulk_Cap row \<noteq> None \<longleftrightarrow>
            (\<exists>c\<in>set sel_caps. group_prefix c = Group row \<and> contains ''_bulk_cap'' c)"
    using b unfolding ne by blast
  have 2: "Bulk_Surplus row \<noteq> None \<longleftrightarrow> Bulk_Cap row \<noteq> None"
    by (simp add: bs)
  have 3: "(\<exists>vs. list_all2 (\<lambda>c v. map_of total_cap c = Some v) ?bk vs \<and> x = sum_list vs)
            \<and> Bulk_Surplus row = Some (x - Requirement row)" if "Bulk_Cap row = Some x" for x
    using b that by (auto simp: bs)
  have 4: "Wheeled_Cap row \<noteq> None \<longleftrightarrow>
            (\<exists>c\<in>set sel_caps. group_prefix c = Group row \<and> contains ''_wheeled_cap'' c)"
    using w unfolding ne by blast
  have 5: "Wheeled_Surplus row \<noteq> None \<longleftrightarrow> Wheeled_Cap row \<noteq> None"
    by (simp add: ws)
  have 6: "(\<exists>vs. list_all2 (\<lambda>c v. map_of total_cap c = Some v) ?wk vs \<and> x = sum_list vs)
            \<and> Wheeled_Surplus row = Some (x - Requirement row)" if "Wheeled_Cap row = Some x" for x
    using w that by (auto simp: ws)
  from 1 2 3 4 5 6 show ?thesis by blast
qed

text \<open>
  The theorem at the row of class III of the scenario, which has both a bulk and a
  wheeled capacity column.
\<close>

theorem bulk_wheeled_fields_witness:
  "build_group_summary scenario_total_req scenario_total_cap scenario_rates scenario_caps =
     Some [scenario_CL_III, scenario_Javelin]
   \<and> scenario_CL_III \<in> set [scenario_CL_III, scenario_Javelin]
   \<and> (Bulk_Cap scenario_CL_III \<noteq> None) =
        (\<exists>c\<in>set scenario_caps. group_prefix c = Group scenario_CL_III \<and> contains ''_bulk_cap'' c)
   \<and> (Bulk_Surplus scenario_CL_III \<noteq> None) = (Bulk_Cap scenario_CL_III \<noteq> None)
   \<and> Bulk_Cap scenario_CL_III = Some 8
   \<and> (\<exists>vs. list_all2 (\<lambda>c v. map_of scenario_total_cap c = Some v)
             (filter (\<lambda>c. group_prefix c = Group scenario_CL_III \<and> contains ''_bulk_cap'' c)
                scenario_caps) vs
           \<and> 8 = sum_list vs)
   \<and> Bulk_Surplus scenario_CL_III = Some (8 - Requirement scenario_CL_III)
   \<and> (Wheeled_Cap scenario_CL_III \<noteq> None) =
        (\<exists>c\<in>set scenario_caps.
           group_prefix c = Group scenario_CL_III \<and> contains ''_wheeled_cap'' c)
   \<and> (Wheeled_Surplus scenario_CL_III \<noteq> None) = (Wheeled_Cap scenario_CL_III \<noteq> None)
   \<and> Wheeled_Cap scenario_CL_III = Some 6
   \<and> (\<exists>vs. list_all2 (\<lambda>c v. map_of scenario_total_cap c = Some v)
             (filter (\<lambda>c. group_prefix c = Group scenario_CL_III \<and> contains ''_wheeled_cap'' c)
                scenario_caps) vs
           \<and> 6 = sum_list vs)
   \<and> Wheeled_Surplus scenario_CL_III = Some (6 - Requirement scenario_CL_III)"
proof -
  have m: "scenario_CL_III \<in> set [scenario_CL_III, scenario_Javelin]" by simp
  have b: "Bulk_Cap scenario_CL_III = Some 8" and w: "Wheeled_Cap scenario_CL_III = Some 6"
    by (simp_all add: scenario_CL_III_def)
  from bulk_wheeled_fields [OF scenario_summary m] scenario_summary m b w
  show ?thesis by blast
qed

subsection \<open>C7: the detail table\<close>



subsection \<open>C8: only a surplus can be negative\<close>



subsection \<open>C9: the number formatter\<close>

text \<open>
  C9. The formatter renders NaN, which is also what a missing value is, as \<^verbatim>\<open>-\<close>. Any
  other input is first truncated toward zero to an integer (the floor of a non-negative
  number, the ceiling of a negative one); a result that is not negative is rendered as
  its digits with thousands separators, and a negative result as its absolute value
  with thousands separators between parentheses. With thousands separators means: the
  string without its commas is the digit string, and the commas are the characters at
  the positions 4, 8, 12, ... counted from the right. In particular -1234.9 is rendered
  as \<^verbatim>\<open>(1,234)\<close>, 5678 as \<^verbatim>\<open>5,678\<close> and NaN as \<^verbatim>\<open>-\<close>.
\<close>

theorem fmt_parenthesis_contract:
  "fmt_parenthesis NaN = ''-''
   \<and> fmt_parenthesis (Num v) =
       (if py_int v < 0 then ''('' @ fmt_commas (nat \<bar>py_int v\<bar>) @ '')''
        else fmt_commas (nat (py_int v)))
   \<and> py_int v = (if 0 \<le> v then \<lfloor>v\<rfloor> else \<lceil>v\<rceil>)
   \<and> filter (\<lambda>c. c \<noteq> CHR '','') (fmt_commas n) = decimal n
   \<and> foldl (\<lambda>a c. 10 * a + digit_value c) 0 (decimal n) = n
   \<and> (\<forall>i<length (fmt_commas n).
         (fmt_commas n ! i = CHR '','') = ((length (fmt_commas n) - i) mod 4 = 0))
   \<and> fmt_parenthesis (Num (- 1234.9)) = ''(1,234)''
   \<and> fmt_parenthesis (Num 5678) = ''5,678''"
proof (intro conjI allI impI)
  show "fmt_parenthesis NaN = ''-''"
    by (simp add: fmt_parenthesis_def)
  show "fmt_parenthesis (Num v) =
       (if py_int v < 0 then ''('' @ fmt_commas (nat \<bar>py_int v\<bar>) @ '')''
        else fmt_commas (nat (py_int v)))"
    by (simp add: fmt_parenthesis_def Let_def)
  show "py_int v = (if 0 \<le> v then \<lfloor>v\<rfloor> else \<lceil>v\<rceil>)"
    by (rule py_int_trunc)
  show "filter (\<lambda>c. c \<noteq> CHR '','') (fmt_commas n) = decimal n"
    by (rule fmt_commas_digits)
  show "foldl (\<lambda>a c. 10 * a + digit_value c) 0 (decimal n) = n"
    by (rule decimal_value)
  show "(fmt_commas n ! i = CHR '','') = ((length (fmt_commas n) - i) mod 4 = 0)"
    if "i < length (fmt_commas n)" for i
    using that by (rule fmt_commas_positions)
  show "fmt_parenthesis (Num (- 1234.9)) = ''(1,234)''"
    by (simp add: fmt_parenthesis_def py_int_def fmt_commas_def decimal.simps digit_char_def)
  show "fmt_parenthesis (Num 5678) = ''5,678''"
    by (simp add: fmt_parenthesis_def py_int_def fmt_commas_def decimal.simps digit_char_def)
qed

text \<open>
  The theorem at a number between -1 and 0, which is truncated to 0 and so rendered
  without parentheses, and at the digit string of one million.
\<close>

theorem fmt_parenthesis_contract_witness:
  "fmt_parenthesis (Num (- 0.5)) = ''0''
   \<and> py_int (- 0.5) = 0
   \<and> fmt_commas 1000000 = ''1,000,000''
   \<and> filter (\<lambda>c. c \<noteq> CHR '','') ''1,000,000'' = decimal 1000000
   \<and> foldl (\<lambda>a c. 10 * a + digit_value c) 0 (decimal 1000000) = 1000000
   \<and> (1::nat) < length ''1,000,000''
   \<and> (''1,000,000'' ! 1 = CHR '','') = ((length ''1,000,000'' - 1) mod 4 = 0)"
proof -
  have p: "py_int (- 0.5) = 0"
    by (simp add: py_int_def)
  have f: "fmt_commas 1000000 = ''1,000,000''"
    by (simp add: fmt_commas_def decimal.simps digit_char_def)
  have z: "fmt_commas (nat 0) = ''0''"
    by (simp add: fmt_commas_def decimal.simps digit_char_def)
  from fmt_parenthesis_contract [of "- 0.5" 1000000] p f z show ?thesis
    by simp
qed

subsection \<open>C10: the base name removes every occurrence of the suffix\<close>

text \<open>
  C10. The base name of a rate column, in the deficit detection and in the detail table
  alike, is the column name with every occurrence of \<^verbatim>\<open>_rate\<close> removed, not only a
  trailing one: each occurrence makes the name five characters shorter and what is left
  keeps its order. For a rate column in which \<^verbatim>\<open>_rate\<close> occurs exactly once and as the
  final suffix this is the name with the suffix stripped; a rate column with \<^verbatim>\<open>_rate\<close>
  at another position as well loses all of them, as \<^verbatim>\<open>A_rate_B_rate\<close> shows, whose base
  name is \<^verbatim>\<open>A_B\<close> where stripping the suffix gives \<^verbatim>\<open>A_rate_B\<close>.
\<close>

theorem base_removes_every_rate:
  "base rate = replace ''_rate'' [] rate
   \<and> length (base rate) + 5 * occurrences ''_rate'' rate = length rate
   \<and> subseq (base rate) rate
   \<and> (endswith rate RATE_SUFFIX \<and> occurrences RATE_SUFFIX rate = 1 \<longrightarrow>
        base rate = strip_suffix RATE_SUFFIX rate)
   \<and> (\<forall>rs. comp_rows total_req total_cap rates caps = Some rs \<longrightarrow>
        map Subtype rs = map base rates)
   \<and> (\<forall>deficit. deficit_subtypes total_req total_cap caps rates surplus = Some deficit \<longrightarrow>
        set deficit \<subseteq> base ` set rates)
   \<and> base ''A_rate_B_rate'' = ''A_B''
   \<and> strip_suffix RATE_SUFFIX ''A_rate_B_rate'' = ''A_rate_B''"
proof (intro conjI allI impI)
  show "base rate = replace ''_rate'' [] rate"
    by (simp add: base_def RATE_SUFFIX_def)
  show "length (base rate) + 5 * occurrences ''_rate'' rate = length rate"
    by (rule base_length)
  show "subseq (base rate) rate"
    by (rule base_subseq)
  show "base rate = strip_suffix RATE_SUFFIX rate"
    if "endswith rate RATE_SUFFIX \<and> occurrences RATE_SUFFIX rate = 1"
    using that base_strips_suffix by blast
  show "map Subtype rs = map base rates"
    if "comp_rows total_req total_cap rates caps = Some rs" for rs
    using comp_rows_Some [OF that]
    by (induction rates rs rule: list_all2_induct) simp_all
  show "set deficit \<subseteq> base ` set rates"
    if "deficit_subtypes total_req total_cap caps rates surplus = Some deficit" for deficit
    unfolding deficit_subtypes_Some [OF that] by auto
  show "base ''A_rate_B_rate'' = ''A_B''"
    by (simp add: base_def replace.simps RATE_SUFFIX_def)
  show "strip_suffix RATE_SUFFIX ''A_rate_B_rate'' = ''A_rate_B''"
    by (simp add: strip_suffix_def endswith_def RATE_SUFFIX_def suffix_to_prefix)
qed

text \<open>
  The theorem at the rate column of class III, where the suffix occurs once and at the
  end, and at the totals of the scenario.
\<close>

theorem base_removes_every_rate_witness:
  "endswith ''CL_III_rate'' RATE_SUFFIX \<and> occurrences RATE_SUFFIX ''CL_III_rate'' = 1
   \<and> base ''CL_III_rate'' = strip_suffix RATE_SUFFIX ''CL_III_rate''
   \<and> comp_rows scenario_total_req scenario_total_cap scenario_rates scenario_caps =
       Some scenario_detail
   \<and> map Subtype scenario_detail = map base scenario_rates
   \<and> deficit_subtypes scenario_total_req scenario_total_cap scenario_caps scenario_rates (- 6) =
       Some [''CL_III'', ''Javelin'']
   \<and> set [''CL_III'', ''Javelin''] \<subseteq> base ` set scenario_rates"
proof -
  have e: "endswith ''CL_III_rate'' RATE_SUFFIX"
    by (simp add: endswith_def RATE_SUFFIX_def suffix_to_prefix)
  have o: "occurrences RATE_SUFFIX ''CL_III_rate'' = 1"
    by (simp add: RATE_SUFFIX_def)
  have d: "deficit_subtypes scenario_total_req scenario_total_cap scenario_caps scenario_rates
             (- 6) = Some [''CL_III'', ''Javelin'']"
    by (simp add: deficit_subtypes_def scenario_defs scenario_base series_sum_def
        cap_matches_def startswith_def)
  from base_removes_every_rate [of "''CL_III_rate''" scenario_total_req scenario_total_cap
      scenario_rates scenario_caps "- 6"] e o d scenario_comp_rows
  show ?thesis by blast
qed

end
